theory Spec2Isabelle
  imports Complex_Main "HOL-Library.Char_ord" "HOL-Library.List_Lexorder"
begin

section \<open>Values held by the cells of a table\<close>

text \<open>
  The notebooks keep their data in pandas tables whose cells hold Python objects: strings,
  integers, binary64 floats (among them NaN, the marker of a missing value) and \<open>None\<close>.
  Floating-point arithmetic is not modelled: the type \<open>'f\<close> of floats stays abstract, and
  the built-in \<open>float\<close>, which parses a numeral, is a parameter of the functions that call it.
\<close>

datatype 'f pyval = PyStr string | PyInt int | PyFloat 'f | PyNone

text \<open>\<open>isinstance(v, str)\<close>.\<close>

fun isinstance_str :: "'f pyval \<Rightarrow> bool" where
  "isinstance_str (PyStr s) = True"
| "isinstance_str v = False"

text \<open>
  \<open>v == n\<close> for an integer \<open>n\<close>: an integer equals \<open>n\<close> when it is \<open>n\<close>; a float equals \<open>n\<close> when
  its value is \<open>n\<close> (so \<open>0.0 == 0\<close> holds, and NaN equals nothing), which is the parameter
  \<open>feq\<close>; a string and \<open>None\<close> equal no integer.
\<close>

fun py_eq_int :: "('f \<Rightarrow> int \<Rightarrow> bool) \<Rightarrow> 'f pyval \<Rightarrow> int \<Rightarrow> bool" where
  "py_eq_int feq (PyInt k) n = (k = n)"
| "py_eq_int feq (PyFloat x) n = feq x n"
| "py_eq_int feq v n = False"

section \<open>The pattern \<open>\d+\.\d+\<close> and \<open>re.findall\<close>\<close>

text \<open>
  A string is a list of 8-bit characters, read as the code points 0 to 255. In that range the
  decimal digits that \<open>\d\<close> accepts are exactly \<open>0\<close> to \<open>9\<close>.
\<close>

definition is_digit :: "char \<Rightarrow> bool" where
  "is_digit c \<longleftrightarrow> c \<in> set ''0123456789''"

text \<open>
  One attempt of the regular-expression engine at the head of \<open>s\<close>. Both \<open>\d+\<close> are greedy and
  take the longest run of digits. Giving back digits of the first run never helps, since the
  character after a shorter run is a digit and not the dot; so the attempt succeeds exactly when
  the longest run is non-empty, a dot follows, and a digit follows the dot.
\<close>

definition match_at :: "string \<Rightarrow> string option" where
  "match_at s =
     (let ds1 = takeWhile is_digit s; r1 = dropWhile is_digit s in
      if ds1 = [] then None
      else (case r1 of
              [] \<Rightarrow> None
            | c # r2 \<Rightarrow>
                if c \<noteq> CHR ''.'' then None
                else (let ds2 = takeWhile is_digit r2 in
                      if ds2 = [] then None else Some (ds1 @ c # ds2))))"

text \<open>
  \<open>re.findall(pattern, s)\<close>: the matches found scanning from left to right, each search
  resuming where the previous match ended, so the matches do not overlap.
\<close>

function findall :: "string \<Rightarrow> string list" where
  "findall [] = []"
| "findall (c # cs) =
     (case match_at (c # cs) of
        Some m \<Rightarrow> m # findall (drop (length m) (c # cs))
      | None \<Rightarrow> findall cs)"
  by pat_completeness auto
termination
  by (relation "measure length")
     (auto simp: match_at_def Let_def split: if_splits list.splits)

section \<open>The helper \<open>return_mileage\<close>\<close>

text \<open>
  \<^verbatim>\<open>
  def return_mileage(length):
      if isinstance(length, str):
          pattern = re.compile(r"\d+\.\d+")
          mile = re.findall(pattern, length)
          if len(mile) == 1:
              return float(mile[0])
      else:
          return 0
  \<close>
  The \<open>else\<close> belongs to the \<open>isinstance\<close> test. A string with no match, or with several, leaves
  the function by the end of its body, which in Python returns \<open>None\<close>.
\<close>

fun return_mileage :: "(string \<Rightarrow> 'f) \<Rightarrow> 'f pyval \<Rightarrow> 'f pyval" where
  "return_mileage pyfloat (PyStr s) =
     (let mile = findall s in
      if length mile = 1 then PyFloat (pyfloat (mile ! 0)) else PyNone)"
| "return_mileage pyfloat v = PyInt 0"

text \<open>
  Where a closed instance of \<open>float\<close> is needed, the exact value of the numeral is used, a
  rational number; Python rounds it to the nearest binary64.
\<close>

definition digit_value :: "char \<Rightarrow> nat" where
  "digit_value c = of_char c - 48"

definition digits_value :: "string \<Rightarrow> nat" where
  "digits_value ds = foldl (\<lambda>a c. 10 * a + digit_value c) 0 ds"

definition decimal_value :: "string \<Rightarrow> rat" where
  "decimal_value m =
     (let ip = takeWhile is_digit m; fp = drop (Suc (length ip)) m in
      of_nat (digits_value ip) + of_nat (digits_value fp) / 10 ^ length fp)"

text \<open>
  The language of the pattern, stated without reference to the engine: a non-empty run of
  digits, a dot, a non-empty run of digits. The pattern matches in \<open>s\<close> when some substring
  of \<open>s\<close> belongs to that language.
\<close>

definition in_pattern :: "string \<Rightarrow> bool" where
  "in_pattern m \<longleftrightarrow>
     (\<exists>a b. m = a @ CHR ''.'' # b \<and> a \<noteq> [] \<and> b \<noteq> [] \<and> list_all is_digit a \<and> list_all is_digit b)"

definition has_match :: "string \<Rightarrow> bool" where
  "has_match s \<longleftrightarrow> (\<exists>pre m post. s = pre @ m @ post \<and> in_pattern m)"

section \<open>Binary encoding of \<open>Accessible\<close>\<close>

text \<open>
  \<open>val == "Y"\<close>: a string equals a string with the same characters; an integer, a float (NaN
  included) and \<open>None\<close> equal no string.
\<close>

fun py_eq_str :: "'f pyval \<Rightarrow> string \<Rightarrow> bool" where
  "py_eq_str (PyStr s) t = (s = t)"
| "py_eq_str v t = False"

text \<open>\<^verbatim>\<open>lambda val: 1 if val == "Y" else 0\<close>\<close>

definition accessible_enc :: "'f pyval \<Rightarrow> 'f pyval" where
  "accessible_enc val = (if py_eq_str val ''Y'' then PyInt 1 else PyInt 0)"

section \<open>Tables and derived columns\<close>

text \<open>
  A pandas DataFrame: the row labels in row order, and the columns in column order, each a name
  with one cell per row.
\<close>

record 'f dataframe =
  df_index :: "nat list"
  df_columns :: "(string \<times> 'f pyval list) list"

datatype error = KeyError

definition column_names :: "'f dataframe \<Rightarrow> string list" where
  "column_names df = map fst (df_columns df)"

definition nrows :: "'f dataframe \<Rightarrow> nat" where
  "nrows df = length (df_index df)"

definition wf_frame :: "'f dataframe \<Rightarrow> bool" where
  "wf_frame df \<longleftrightarrow>
     distinct (column_names df) \<and> list_all (\<lambda>p. length (snd p) = nrows df) (df_columns df)"

text \<open>\<open>df[name]\<close>: the cells of the column, or KeyError when there is no such column.\<close>

definition getitem :: "'f dataframe \<Rightarrow> string \<Rightarrow> error + 'f pyval list" where
  "getitem df name =
     (case map_of (df_columns df) name of None \<Rightarrow> Inl KeyError | Some vs \<Rightarrow> Inr vs)"

text \<open>
  Storing a column under a name: a column of that name is replaced where it stands, a new name
  is added after the last column.
\<close>

fun set_column :: "string \<Rightarrow> 'v \<Rightarrow> (string \<times> 'v) list \<Rightarrow> (string \<times> 'v) list" where
  "set_column k v [] = [(k, v)]"
| "set_column k v (p # ps) = (if fst p = k then (k, v) # ps else p # set_column k v ps)"

text \<open>
  The statement \<open>df[new] = df[old].apply(f)\<close>. The Series that \<open>apply\<close> returns carries the
  row labels of \<open>df\<close> itself, so the assignment stores its values row by row.

  pandas keeps the results in one typed array: where they are floats together with integers
  or \<open>None\<close>, the column becomes float64, an integer 0 is stored as 0.0 and \<open>None\<close> as NaN;
  where they are all integers they stay as they are. That choice belongs to pandas and is the
  parameter \<open>convert\<close>: from the list of results it gives the conversion applied to each of
  them, so the number of rows cannot change.
\<close>

definition assign_apply ::
  "('f pyval list \<Rightarrow> 'f pyval \<Rightarrow> 'f pyval) \<Rightarrow> string \<Rightarrow> string \<Rightarrow> ('f pyval \<Rightarrow> 'f pyval) \<Rightarrow>
     'f dataframe \<Rightarrow> error + 'f dataframe" where
  "assign_apply convert new old f df =
     (case getitem df old of
        Inl e \<Rightarrow> Inl e
      | Inr vs \<Rightarrow>
          (let rs = map f vs in
           Inr (df\<lparr>df_columns := set_column new (map (convert rs) rs) (df_columns df)\<rparr>)))"

text \<open>
  \<^verbatim>\<open>hiking["Length Mileage"] = hiking["Length"].apply(lambda row: return_mileage(row))\<close>
  \<^verbatim>\<open>hiking["Accessible_enc"] = hiking["Accessible"].apply(lambda val: 1 if val == "Y" else 0)\<close>
\<close>

definition add_length_mileage ::
  "('f pyval list \<Rightarrow> 'f pyval \<Rightarrow> 'f pyval) \<Rightarrow> (string \<Rightarrow> 'f) \<Rightarrow> 'f dataframe \<Rightarrow>
     error + 'f dataframe" where
  "add_length_mileage convert pyfloat hiking =
     assign_apply convert ''Length Mileage'' ''Length'' (\<lambda>row. return_mileage pyfloat row) hiking"

definition add_accessible_enc ::
  "('f pyval list \<Rightarrow> 'f pyval \<Rightarrow> 'f pyval) \<Rightarrow> 'f dataframe \<Rightarrow> error + 'f dataframe" where
  "add_accessible_enc convert hiking =
     assign_apply convert ''Accessible_enc'' ''Accessible'' (\<lambda>val. accessible_enc val) hiking"

section \<open>Dropping a column and the correlation matrix\<close>

text \<open>
  \<open>df.drop(c, axis=1)\<close>: a new table without the column \<open>c\<close>, the other columns in their order
  and the rows as they were; KeyError when there is no column \<open>c\<close>.
\<close>

definition drop_column :: "string \<Rightarrow> 'f dataframe \<Rightarrow> error + 'f dataframe" where
  "drop_column c df =
     (if c \<in> set (column_names df)
      then Inr (df\<lparr>df_columns := filter (\<lambda>p. fst p \<noteq> c) (df_columns df)\<rparr>)
      else Inl KeyError)"

text \<open>
  \<open>df.corr()\<close> on a table whose columns are all numeric: a square table with one row and one
  column for each column of \<open>df\<close>, in the order of \<open>df\<close>, whose entry for the columns \<open>a\<close> and
  \<open>b\<close> is the Pearson coefficient of the cells of \<open>a\<close> and of \<open>b\<close>. The coefficient is computed
  by pandas in floating point from those two columns alone (rows where either is missing are
  left out pair by pair); it is the parameter \<open>pearson\<close>. What \<open>corr\<close> does with a column that is
  not numeric depends on the version of pandas and is not modelled.
\<close>

definition numeric_frame :: "'f dataframe \<Rightarrow> bool" where
  "numeric_frame df \<longleftrightarrow>
     list_all (\<lambda>p. list_all (\<lambda>v. case v of PyInt n \<Rightarrow> True | PyFloat x \<Rightarrow> True | _ \<Rightarrow> False) (snd p))
       (df_columns df)"

definition corr ::
  "('f pyval list \<Rightarrow> 'f pyval list \<Rightarrow> 'r) \<Rightarrow> 'f dataframe \<Rightarrow> (string \<times> (string \<times> 'r) list) list" where
  "corr pearson df =
     map (\<lambda>p. (fst p, map (\<lambda>q. (fst q, pearson (snd p) (snd q))) (df_columns df))) (df_columns df)"

text \<open>The entry of a correlation matrix in the row \<open>a\<close> and the column \<open>b\<close>.\<close>

definition coef :: "(string \<times> (string \<times> 'r) list) list \<Rightarrow> string \<Rightarrow> string \<Rightarrow> 'r option" where
  "coef m a b = (case map_of m a of None \<Rightarrow> None | Some row \<Rightarrow> map_of row b)"

text \<open>The matrix without the row and the column labelled \<open>c\<close>.\<close>

definition submatrix ::
  "string \<Rightarrow> (string \<times> (string \<times> 'r) list) list \<Rightarrow> (string \<times> (string \<times> 'r) list) list" where
  "submatrix c m =
     map (\<lambda>p. (fst p, filter (\<lambda>q. fst q \<noteq> c) (snd p))) (filter (\<lambda>p. fst p \<noteq> c) m)"

section \<open>Library encoders\<close>

text \<open>
  \<open>LabelEncoder\<close> belongs to scikit-learn and \<open>get_dummies\<close> to pandas; the notebooks only call
  them. They are modelled from their documented behaviour, on columns of one ordered type, and
  compared below with the outputs that the notebooks record.

  \<open>LabelEncoder().fit_transform(y)\<close>: the classes are the distinct values of \<open>y\<close> in ascending
  order, and each value is encoded by the position of its class.
\<close>

definition classes :: "'a::linorder list \<Rightarrow> 'a list" where
  "classes y = sort (remdups y)"

fun index_of :: "'a list \<Rightarrow> 'a \<Rightarrow> nat" where
  "index_of [] y = 0"
| "index_of (c # cs) y = (if c = y then 0 else Suc (index_of cs y))"

definition fit_transform :: "'a::linorder list \<Rightarrow> nat list" where
  "fit_transform y = map (index_of (classes y)) y"

text \<open>
  \<open>pd.get_dummies(series)\<close> with its default arguments: one indicator column for each distinct
  value that is not missing, in ascending order of the values; a missing entry (\<open>None\<close> here) gets
  no column and a row of zeros.
\<close>

definition dummy_names :: "'a::linorder option list \<Rightarrow> 'a list" where
  "dummy_names xs = sort (remdups (map the (filter (\<lambda>x. x \<noteq> None) xs)))"

definition get_dummies :: "'a::linorder option list \<Rightarrow> ('a \<times> nat list) list" where
  "get_dummies xs =
     map (\<lambda>c. (c, map (\<lambda>x. if x = Some c then 1 else 0) xs)) (dummy_names xs)"

section \<open>Properties of the pattern matcher\<close>

text \<open>
  The scan returns only substrings that belong to the language of the pattern, and it returns
  none exactly when no substring belongs to it.
\<close>

lemma dot_not_digit: "\<not> is_digit CHR ''.''"
  by (simp add: is_digit_def)

lemma match_at_SomeD:
  assumes "match_at s = Some m"
  shows "in_pattern m \<and> (\<exists>post. s = m @ post)"
proof -
  define ds1 where "ds1 = takeWhile is_digit s"
  define r1 where "r1 = dropWhile is_digit s"
  from assms obtain r2 where r1: "r1 = CHR ''.'' # r2" and ne1: "ds1 \<noteq> []"
    and ne2: "takeWhile is_digit r2 \<noteq> []" and m: "m = ds1 @ CHR ''.'' # takeWhile is_digit r2"
    unfolding match_at_def ds1_def r1_def Let_def
    by (auto split: if_splits list.splits)
  have "s = ds1 @ r1" by (simp add: ds1_def r1_def)
  then have "s = m @ dropWhile is_digit r2" by (simp add: m r1)
  moreover have "list_all is_digit ds1" "list_all is_digit (takeWhile is_digit r2)"
    by (auto simp: ds1_def list_all_iff dest: set_takeWhileD)
  then have "in_pattern m" unfolding in_pattern_def using m ne1 ne2 by blast
  ultimately show ?thesis by blast
qed

lemma match_at_complete:
  assumes "in_pattern m"
  shows "match_at (m @ post) \<noteq> None"
proof -
  from assms obtain a b where m: "m = a @ CHR ''.'' # b" and a: "a \<noteq> []" and b: "b \<noteq> []"
    and da: "list_all is_digit a" and db: "list_all is_digit b"
    unfolding in_pattern_def by blast
  have t: "takeWhile is_digit (m @ post) = a"
    using da by (simp add: m list_all_iff takeWhile_append2 dot_not_digit)
  have d: "dropWhile is_digit (m @ post) = CHR ''.'' # b @ post"
    using da by (simp add: m list_all_iff dropWhile_append2 dot_not_digit)
  from b db obtain x b' where "b = x # b'" "is_digit x" by (cases b) auto
  then have "takeWhile is_digit (b @ post) \<noteq> []" by simp
  then show ?thesis
    unfolding match_at_def Let_def t d using a by simp
qed

lemma findall_sound: "m \<in> set (findall s) \<Longrightarrow> in_pattern m \<and> (\<exists>pre post. s = pre @ m @ post)"
proof (induction s rule: findall.induct)
  case 1
  then show ?case by simp
next
  case (2 c cs)
  show ?case
  proof (cases "match_at (c # cs)")
    case None
    with 2 have "in_pattern m \<and> (\<exists>pre post. cs = pre @ m @ post)" by simp
    then obtain pre post where "in_pattern m" "cs = pre @ m @ post" by blast
    then have "c # cs = (c # pre) @ m @ post" by simp
    with \<open>in_pattern m\<close> show ?thesis by blast
  next
    case (Some m')
    from match_at_SomeD[OF Some] obtain post' where p: "in_pattern m'" and s: "c # cs = m' @ post'"
      by blast
    from 2(3) Some have "m = m' \<or> m \<in> set (findall (drop (length m') (c # cs)))" by simp
    then show ?thesis
    proof
      assume "m = m'"
      with p s have "c # cs = [] @ m @ post'" by simp
      with p \<open>m = m'\<close> show ?thesis by blast
    next
      assume "m \<in> set (findall (drop (length m') (c # cs)))"
      with 2(2)[OF Some] obtain pre post where "in_pattern m" and d: "drop (length m') (c # cs) = pre @ m @ post"
        by blast
      have "drop (length m') (c # cs) = post'" using s by simp
      with s d have "c # cs = (m' @ pre) @ m @ post" by simp
      with \<open>in_pattern m\<close> show ?thesis by blast
    qed
  qed
qed

lemma findall_complete: "has_match s \<Longrightarrow> findall s \<noteq> []"
proof (induction s)
  case Nil
  then show ?case by (auto simp: has_match_def in_pattern_def)
next
  case (Cons c cs)
  show ?case
  proof (cases "match_at (c # cs)")
    case (Some m)
    then show ?thesis by simp
  next
    case None
    from Cons.prems obtain pre m post where s: "c # cs = pre @ m @ post" and p: "in_pattern m"
      unfolding has_match_def by blast
    have "pre \<noteq> []"
    proof
      assume "pre = []"
      with s have "c # cs = m @ post" by simp
      with match_at_complete[OF p, of post] None show False by simp
    qed
    then obtain pre' where "pre = c # pre'" "cs = pre' @ m @ post" using s by (cases pre) auto
    with p have "has_match cs" unfolding has_match_def by blast
    with Cons.IH have "findall cs \<noteq> []" .
    with None show ?thesis by simp
  qed
qed

lemma findall_empty_iff: "findall s = [] \<longleftrightarrow> \<not> has_match s"
proof
  assume "findall s = []"
  show "\<not> has_match s"
  proof
    assume "has_match s"
    from findall_complete[OF this] \<open>findall s = []\<close> show False by simp
  qed
next
  assume n: "\<not> has_match s"
  show "findall s = []"
  proof (rule ccontr)
    assume "findall s \<noteq> []"
    then obtain m where "m \<in> set (findall s)" by (cases "findall s") auto
    from findall_sound[OF this] have "has_match s" unfolding has_match_def by blast
    with n show False by simp
  qed
qed


section \<open>Properties of \<open>return_mileage\<close>\<close>

text \<open>
  Claim C1, as stated, asks for the fallback 0 on every input that is not a string and on
  every string in which the pattern does not match. The second half fails: in \<open>5 miles\<close> the
  pattern does not match, and the result is \<open>None\<close>, not 0.
\<close>

theorem return_mileage_unmatched_counterexample:
  "\<not> has_match ''5 miles'' \<and> return_mileage decimal_value (PyStr ''5 miles'') \<noteq> PyInt 0"
proof -
  have "findall ''5 miles'' = []"
    by (simp add: match_at_def is_digit_def)
  then show ?thesis
    using findall_empty_iff [of "''5 miles''"] by simp
qed

text \<open>
  Claim C1, amended: on every input that is not a string \<open>return_mileage\<close> returns the
  fallback 0; on every string in which the pattern does not match it returns \<open>None\<close>.
\<close>

theorem return_mileage_fallback:
  "(\<not> isinstance_str v \<longrightarrow> return_mileage pyfloat v = PyInt 0) \<and>
   (\<not> has_match s \<longrightarrow> return_mileage pyfloat (PyStr s) = PyNone)"
proof
  show "\<not> isinstance_str v \<longrightarrow> return_mileage pyfloat v = PyInt 0"
    by (cases v) simp_all
next
  show "\<not> has_match s \<longrightarrow> return_mileage pyfloat (PyStr s) = PyNone"
    using findall_empty_iff [of s] by (auto simp: Let_def)
qed

theorem return_mileage_fallback_witness:
  "\<not> isinstance_str (PyNone :: rat pyval) \<and> return_mileage decimal_value PyNone = PyInt 0 \<and>
   \<not> has_match ''5 miles'' \<and> return_mileage decimal_value (PyStr ''5 miles'') = PyNone"
proof -
  have "findall ''5 miles'' = []"
    by (simp add: match_at_def is_digit_def)
  then have "\<not> has_match ''5 miles''"
    using findall_empty_iff [of "''5 miles''"] by simp
  then show ?thesis
    using return_mileage_fallback [of PyNone decimal_value "''5 miles''"] by simp
qed

text \<open>
  Claim C2: on a string in which the scan finds exactly one match \<open>m\<close>, \<open>return_mileage\<close>
  returns \<open>float(m)\<close>, and \<open>m\<close> is a substring of the input of the form digits, dot, digits.
  On \<open>0.8 miles\<close> the match is \<open>0.8\<close>, whose value is 4/5.
\<close>

theorem return_mileage_single_match:
  assumes "findall s = [m]"
  shows "return_mileage pyfloat (PyStr s) = PyFloat (pyfloat m) \<and>
         in_pattern m \<and> (\<exists>pre post. s = pre @ m @ post)"
proof -
  have "m \<in> set (findall s)" using assms by simp
  from findall_sound [OF this] assms show ?thesis by simp
qed

theorem return_mileage_single_match_witness:
  "findall ''0.8 miles'' = [''0.8''] \<and>
   return_mileage decimal_value (PyStr ''0.8 miles'') = PyFloat (4 / 5)"
proof -
  have f: "findall ''0.8 miles'' = [''0.8'']"
    by (simp add: match_at_def is_digit_def)
  have d: "decimal_value ''0.8'' = 4 / 5"
    by (simp add: decimal_value_def digits_value_def digit_value_def is_digit_def)
  from return_mileage_single_match [OF f, of decimal_value] f d show ?thesis by simp
qed

text \<open>
  Claim C8, as stated, says that the value 0 is returned only on the branch of the inputs
  that are not strings. On the string \<open>0.0 miles\<close> the scan finds the single match \<open>0.0\<close> and
  the result is the float 0.0, which equals 0.
\<close>

theorem return_mileage_zero_counterexample:
  "isinstance_str (PyStr ''0.0 miles'' :: rat pyval) \<and>
   py_eq_int (\<lambda>x n. x = of_int n) (return_mileage decimal_value (PyStr ''0.0 miles'')) 0"
  by (simp add: match_at_def is_digit_def decimal_value_def digits_value_def digit_value_def)

text \<open>
  Claim C8, amended: on a string in which the scan finds no match or more than one,
  \<open>return_mileage\<close> falls through and returns \<open>None\<close>. The integer 0 of the fallback is returned
  exactly on the inputs that are not strings. A value equal to 0 is returned on those inputs
  and, besides them, exactly on the strings with a single match whose float equals 0.
\<close>

theorem return_mileage_falls_through:
  "(length (findall s) = 0 \<or> 1 < length (findall s) \<longrightarrow>
      return_mileage pyfloat (PyStr s) = PyNone) \<and>
   (return_mileage pyfloat v = PyInt 0 \<longleftrightarrow> \<not> isinstance_str v) \<and>
   (py_eq_int feq (return_mileage pyfloat v) 0 \<longleftrightarrow>
      \<not> isinstance_str v \<or> (\<exists>t m. v = PyStr t \<and> findall t = [m] \<and> feq (pyfloat m) 0))"
proof (intro conjI)
  show "length (findall s) = 0 \<or> 1 < length (findall s) \<longrightarrow>
      return_mileage pyfloat (PyStr s) = PyNone"
    by auto
next
  show "return_mileage pyfloat v = PyInt 0 \<longleftrightarrow> \<not> isinstance_str v"
    by (cases v) (simp_all add: Let_def)
next
  show "py_eq_int feq (return_mileage pyfloat v) 0 \<longleftrightarrow>
      \<not> isinstance_str v \<or> (\<exists>t m. v = PyStr t \<and> findall t = [m] \<and> feq (pyfloat m) 0)"
  proof (cases v)
    case (PyStr t)
    show ?thesis
    proof (cases "length (findall t) = 1")
      case True
      then obtain m where "findall t = [m]"
        by (cases "findall t") auto
      then show ?thesis by (simp add: PyStr)
    next
      case False
      then show ?thesis by (auto simp: PyStr Let_def)
    qed
  qed simp_all
qed

theorem return_mileage_falls_through_witness:
  "findall ''0.5 to 1.5 miles'' = [''0.5'', ''1.5''] \<and>
   return_mileage decimal_value (PyStr ''0.5 to 1.5 miles'') = PyNone \<and>
   return_mileage decimal_value (PyInt 7) = PyInt 0 \<and>
   return_mileage decimal_value (PyStr ''0.0 miles'') \<noteq> PyInt 0 \<and>
   py_eq_int (\<lambda>x n. x = of_int n) (return_mileage decimal_value (PyStr ''0.0 miles'')) 0 \<and>
   \<not> py_eq_int (\<lambda>x n. x = of_int n) (return_mileage decimal_value (PyStr ''0.8 miles'')) 0"
proof -
  have f: "findall ''0.5 to 1.5 miles'' = [''0.5'', ''1.5'']"
    by (simp add: match_at_def is_digit_def)
  have g: "findall ''0.0 miles'' = [''0.0'']" "findall ''0.8 miles'' = [''0.8'']"
    by (simp_all add: match_at_def is_digit_def)
  have d: "decimal_value ''0.0'' = 0" "decimal_value ''0.8'' = 4 / 5"
    by (simp_all add: decimal_value_def digits_value_def digit_value_def is_digit_def)
  show ?thesis
    using return_mileage_falls_through
        [of "''0.5 to 1.5 miles''" decimal_value "PyInt 7" "\<lambda>x n. x = of_int n"]
      return_mileage_falls_through
        [of "''0.5 to 1.5 miles''" decimal_value "PyStr ''0.0 miles''" "\<lambda>x n. x = of_int n"]
      return_mileage_falls_through
        [of "''0.5 to 1.5 miles''" decimal_value "PyStr ''0.8 miles''" "\<lambda>x n. x = of_int n"]
      f g d
    by simp
qed

section \<open>Properties of the binary encoding\<close>

text \<open>
  Claim C9: the encoding lambda returns 1 exactly on the string \<open>Y\<close> and 0 on every other
  value; so \<open>N\<close>, a NaN or any other float, and \<open>None\<close> all receive the code 0.
\<close>

theorem accessible_enc_binary:
  "(accessible_enc v = PyInt 1 \<longleftrightarrow> v = (PyStr ''Y'' :: 'f pyval)) \<and>
   (accessible_enc v = PyInt 0 \<longleftrightarrow> v \<noteq> PyStr ''Y'') \<and>
   accessible_enc (PyStr ''N'') = (PyInt 0 :: 'f pyval) \<and>
   accessible_enc (PyFloat x) = (PyInt 0 :: 'f pyval) \<and>
   accessible_enc PyNone = (PyInt 0 :: 'f pyval)"
  by (cases v) (simp_all add: accessible_enc_def)

theorem accessible_enc_binary_witness:
  "accessible_enc (PyStr ''Y'' :: rat pyval) = PyInt 1 \<and>
   accessible_enc (PyStr ''N'' :: rat pyval) = PyInt 0 \<and>
   accessible_enc (PyNone :: rat pyval) = PyInt 0"
  using accessible_enc_binary [of "PyStr ''Y'' :: rat pyval" 0]
    accessible_enc_binary [of "PyNone :: rat pyval" 0]
  by simp

section \<open>Adding a derived column\<close>

lemma set_column_new: "k \<notin> fst ` set ps \<Longrightarrow> set_column k v ps = ps @ [(k, v)]"
  by (induction ps) auto

lemma map_of_set_column: "map_of (set_column k v ps) k = Some v"
  by (induction ps) auto

lemma getitem_length:
  assumes "wf_frame df" "getitem df c = Inr vs"
  shows "length vs = nrows df"
proof -
  from assms(2) have "map_of (df_columns df) c = Some vs"
    by (simp add: getitem_def split: option.splits)
  then have "(c, vs) \<in> set (df_columns df)" by (rule map_of_SomeD)
  with assms(1) show ?thesis by (auto simp: wf_frame_def list_all_iff)
qed

text \<open>The new column holds the function's results, row by row, as pandas converts them.\<close>

lemma assign_apply_column:
  assumes "assign_apply convert new old f df = Inr df'" and "getitem df old = Inr vs"
  shows "getitem df' new = Inr (map (convert (map f vs)) (map f vs))"
  using assms
  by (auto simp: assign_apply_def getitem_def map_of_set_column Let_def split: sum.splits)

text \<open>
  Claim C7: assigning the result of \<open>apply\<close> on an existing column to a new column name leaves
  the row labels (hence the row count and the row order) as they were, leaves every column that
  was there with the cells it had and in the place it had, and gives a well-formed table whose
  only new column comes last; this whatever conversion pandas applies to the new column. The
  witness runs the \<open>Length Mileage\<close> statement on three rows whose results, two floats and the
  integer 0, pandas stores as floats.
\<close>

theorem assign_apply_frame:
  assumes "wf_frame df" and "new \<notin> set (column_names df)"
    and "assign_apply convert new old f df = Inr df'"
  shows "df_index df' = df_index df \<and> nrows df' = nrows df \<and>
         (\<forall>c \<in> set (column_names df). getitem df' c = getitem df c) \<and>
         take (length (df_columns df)) (df_columns df') = df_columns df \<and>
         column_names df' = column_names df @ [new] \<and> wf_frame df'"
proof -
  from assms(3) obtain vs where vs: "getitem df old = Inr vs"
    and df': "df' = df\<lparr>df_columns :=
        set_column new (map (convert (map f vs)) (map f vs)) (df_columns df)\<rparr>"
    by (auto simp: assign_apply_def Let_def split: sum.splits)
  from assms(2) have "new \<notin> fst ` set (df_columns df)" by (simp add: column_names_def)
  then have cols: "df_columns df' = df_columns df @ [(new, map (convert (map f vs)) (map f vs))]"
    by (simp add: df' set_column_new)
  have idx: "df_index df' = df_index df" by (simp add: df')
  have len: "length vs = nrows df" using getitem_length [OF assms(1) vs] .
  have get: "getitem df' c = getitem df c" if "c \<in> set (column_names df)" for c
  proof -
    from that have "c \<in> dom (map_of (df_columns df))"
      by (simp add: column_names_def dom_map_of_conv_image_fst)
    then obtain ws where "map_of (df_columns df) c = Some ws" by blast
    then show ?thesis by (simp add: getitem_def cols map_add_Some_iff)
  qed
  have wf: "wf_frame df'"
    using assms(1,2) len by (simp add: wf_frame_def column_names_def cols nrows_def idx)
  show ?thesis
    using idx get wf by (simp add: nrows_def cols column_names_def)
qed

theorem assign_apply_frame_witness:
  "add_length_mileage (\<lambda>rs v. case v of PyInt n \<Rightarrow> PyFloat (of_int n) | _ \<Rightarrow> v) decimal_value
     \<lparr>df_index = [0, 1, 2],
      df_columns = [(''Length'', [PyStr ''0.8 miles'', PyNone, PyStr ''1.0 mile'']),
                    (''Accessible'', [PyStr ''Y'', PyStr ''N'', PyNone])]\<rparr>
   = Inr \<lparr>df_index = [0, 1, 2],
      df_columns = [(''Length'', [PyStr ''0.8 miles'', PyNone, PyStr ''1.0 mile'']),
                    (''Accessible'', [PyStr ''Y'', PyStr ''N'', PyNone]),
                    (''Length Mileage'', [PyFloat (4 / 5), PyFloat 0, PyFloat 1])]\<rparr> \<and>
   getitem \<lparr>df_index = [0, 1, 2],
      df_columns = [(''Length'', [PyStr ''0.8 miles'', PyNone, PyStr ''1.0 mile'']),
                    (''Accessible'', [PyStr ''Y'', PyStr ''N'', PyNone]),
                    (''Length Mileage'', [PyFloat (4 / 5 :: rat), PyFloat 0, PyFloat 1])]\<rparr> ''Accessible''
   = Inr [PyStr ''Y'', PyStr ''N'', PyNone]"
proof -
  let ?conv = "\<lambda>(rs :: rat pyval list) v. case v of PyInt n \<Rightarrow> PyFloat (of_int n) | _ \<Rightarrow> v"
  let ?df = "\<lparr>df_index = [0, 1, 2],
      df_columns = [(''Length'', [PyStr ''0.8 miles'', PyNone, PyStr ''1.0 mile'']),
                    (''Accessible'', [PyStr ''Y'', PyStr ''N'', PyNone :: rat pyval])]\<rparr>"
  let ?df' = "\<lparr>df_index = [0, 1, 2],
      df_columns = [(''Length'', [PyStr ''0.8 miles'', PyNone, PyStr ''1.0 mile'']),
                    (''Accessible'', [PyStr ''Y'', PyStr ''N'', PyNone]),
                    (''Length Mileage'', [PyFloat (4 / 5 :: rat), PyFloat 0, PyFloat 1])]\<rparr>"
  have wf: "wf_frame ?df"
    by (simp add: wf_frame_def column_names_def nrows_def)
  have new: "''Length Mileage'' \<notin> set (column_names ?df)"
    by (simp add: column_names_def)
  have run: "assign_apply ?conv ''Length Mileage'' ''Length''
      (\<lambda>row. return_mileage decimal_value row) ?df = Inr ?df'"
    by (simp add: assign_apply_def getitem_def match_at_def is_digit_def
        decimal_value_def digits_value_def digit_value_def)
  have acc: "''Accessible'' \<in> set (column_names ?df)"
    by (simp add: column_names_def)
  from assign_apply_frame [OF wf new run] acc
  have "getitem ?df' ''Accessible'' = getitem ?df ''Accessible''" by blast
  then show ?thesis
    using run by (simp add: add_length_mileage_def getitem_def)
qed

section \<open>Dropping a column before the correlation matrix\<close>

lemma map_of_filter_other: "a \<noteq> c \<Longrightarrow> map_of (filter (\<lambda>p. fst p \<noteq> c) xs) a = map_of xs a"
  by (induction xs) auto

text \<open>
  Claim C6: dropping the column \<open>c\<close> and then taking the correlation matrix gives the
  correlation matrix of the original table without the row and the column of \<open>c\<close>; the entry
  of every pair of retained columns is the one it was. In the witness the coefficient is
  instantiated by the pair of columns it is computed from.
\<close>

theorem corr_drop_commute:
  assumes "numeric_frame df" and "drop_column c df = Inr df'"
  shows "corr pearson df' = submatrix c (corr pearson df) \<and>
         (\<forall>a b. a \<noteq> c \<and> b \<noteq> c \<longrightarrow>
            coef (corr pearson df') a b = coef (corr pearson df) a b) \<and>
         map fst (corr pearson df') = filter (\<lambda>a. a \<noteq> c) (column_names df) \<and>
         numeric_frame df'"
proof -
  from assms(2) have df': "df_columns df' = filter (\<lambda>p. fst p \<noteq> c) (df_columns df)"
    by (auto simp: drop_column_def split: if_splits)
  have sub: "corr pearson df' = submatrix c (corr pearson df)"
    by (simp add: corr_def submatrix_def df' filter_map comp_def)
  have ent: "coef (corr pearson df') a b = coef (corr pearson df) a b"
    if "a \<noteq> c" "b \<noteq> c" for a b
  proof -
    have "map_of (submatrix c m) a = map_option (filter (\<lambda>q. fst q \<noteq> c)) (map_of m a)"
      for m :: "(string \<times> (string \<times> 'b) list) list"
      using that(1) by (induction m) (auto simp: submatrix_def)
    then show ?thesis
      using that(2) by (simp add: coef_def sub map_of_filter_other split: option.splits)
  qed
  have names: "map fst (corr pearson df') = filter (\<lambda>a. a \<noteq> c) (column_names df)"
    by (simp add: corr_def df' column_names_def filter_map comp_def)
  have num: "numeric_frame df'"
    using assms(1) by (auto simp: numeric_frame_def df' list_all_iff)
  from sub ent names num show ?thesis by blast
qed

theorem corr_drop_commute_witness:
  "drop_column ''Flavanoids''
     \<lparr>df_index = [0, 1],
      df_columns = [(''Flavanoids'', [PyInt 3, PyInt 2]), (''Hue'', [PyInt 1, PyInt 4]),
                    (''Malic acid'', [PyInt 5, PyInt 6 :: rat pyval])]\<rparr>
   = Inr \<lparr>df_index = [0, 1],
      df_columns = [(''Hue'', [PyInt 1, PyInt 4]), (''Malic acid'', [PyInt 5, PyInt 6])]\<rparr> \<and>
   corr Pair
     \<lparr>df_index = [0, 1],
      df_columns = [(''Hue'', [PyInt 1, PyInt 4]), (''Malic acid'', [PyInt 5, PyInt 6 :: rat pyval])]\<rparr>
   = submatrix ''Flavanoids'' (corr Pair
     \<lparr>df_index = [0, 1],
      df_columns = [(''Flavanoids'', [PyInt 3, PyInt 2]), (''Hue'', [PyInt 1, PyInt 4]),
                    (''Malic acid'', [PyInt 5, PyInt 6 :: rat pyval])]\<rparr>) \<and>
   coef (corr Pair
     \<lparr>df_index = [0, 1],
      df_columns = [(''Hue'', [PyInt 1, PyInt 4]), (''Malic acid'', [PyInt 5, PyInt 6 :: rat pyval])]\<rparr>)
     ''Hue'' ''Malic acid'' = Some ([PyInt 1, PyInt 4], [PyInt 5, PyInt 6])"
proof -
  let ?df = "\<lparr>df_index = [0, 1],
      df_columns = [(''Flavanoids'', [PyInt 3, PyInt 2]), (''Hue'', [PyInt 1, PyInt 4]),
                    (''Malic acid'', [PyInt 5, PyInt 6 :: rat pyval])]\<rparr>"
  let ?df' = "\<lparr>df_index = [0, 1],
      df_columns = [(''Hue'', [PyInt 1, PyInt 4]), (''Malic acid'', [PyInt 5, PyInt 6 :: rat pyval])]\<rparr>"
  have num: "numeric_frame ?df"
    by (simp add: numeric_frame_def)
  have run: "drop_column ''Flavanoids'' ?df = Inr ?df'"
    by (simp add: drop_column_def column_names_def)
  have c: "coef (corr Pair ?df') ''Hue'' ''Malic acid'' = Some ([PyInt 1, PyInt 4], [PyInt 5, PyInt 6])"
    by (simp add: coef_def corr_def)
  from corr_drop_commute [OF num run, of Pair] run c show ?thesis by simp
qed

section \<open>The lambda encoding against \<open>LabelEncoder\<close>\<close>

lemma classes_sorted_list: "classes y = sorted_list_of_set (set y)"
  by (simp add: classes_def sorted_list_of_set_sort_remdups)

lemma classes_with_N:
  assumes "set ys \<subseteq> {''N'', ''Y''}" and "''N'' \<in> set ys"
  shows "classes ys = (if ''Y'' \<in> set ys then [''N'', ''Y''] else [''N''])"
proof -
  from assms have "set ys = (if ''Y'' \<in> set ys then {''N'', ''Y''} else {''N''})"
    by auto
  then show ?thesis
    by (simp add: classes_sorted_list split: if_splits)
qed

lemma classes_all_Y:
  assumes "set ys \<subseteq> {''N'', ''Y''}" and "''N'' \<notin> set ys" and "ys \<noteq> []"
  shows "classes ys = [''Y'']"
proof -
  from assms have "set ys = {''Y''}" by (cases ys) auto
  then show ?thesis by (simp add: classes_sorted_list)
qed

text \<open>
  Claim C10, as stated, says that on every column over \<open>N\<close> and \<open>Y\<close> the lambda and
  \<open>LabelEncoder\<close> give the same codes. On the column that holds \<open>Y\<close> alone the lambda gives 1
  while \<open>LabelEncoder\<close>, whose only class is then \<open>Y\<close>, gives 0.
\<close>

theorem lambda_label_encoder_counterexample:
  "set [''Y''] \<subseteq> {''N'', ''Y''} \<and>
   map accessible_enc (map PyStr [''Y'']) \<noteq>
     (map (\<lambda>n. PyInt (int n)) (fit_transform [''Y'']) :: rat pyval list)"
  by (simp add: accessible_enc_def fit_transform_def classes_def)

text \<open>
  Claim C10, amended: on a column whose values are all \<open>N\<close> or \<open>Y\<close>, the lambda and
  \<open>LabelEncoder\<close> give the same codes exactly when the column is empty or holds at least one
  \<open>N\<close>. The witness is the head of the \<open>Accessible\<close> column that the notebook prints.
\<close>

theorem lambda_label_encoder_agree:
  assumes "set ys \<subseteq> {''N'', ''Y''}"
  shows "map accessible_enc (map PyStr ys) =
           (map (\<lambda>n. PyInt (int n)) (fit_transform ys) :: 'f pyval list)
         \<longleftrightarrow> ys = [] \<or> ''N'' \<in> set ys"
proof (cases "ys = [] \<or> ''N'' \<in> set ys")
  case True
  then have "map accessible_enc (map PyStr ys) =
      (map (\<lambda>n. PyInt (int n)) (fit_transform ys) :: 'f pyval list)"
  proof
    assume "ys = []"
    then show ?thesis by (simp add: fit_transform_def)
  next
    assume N: "''N'' \<in> set ys"
    have "accessible_enc (PyStr y) = (PyInt (int (index_of (classes ys) y)) :: 'f pyval)"
      if "y \<in> set ys" for y
    proof -
      from that assms have "y = ''N'' \<or> y = ''Y''" by auto
      then show ?thesis
        using that by (auto simp: classes_with_N [OF assms N] accessible_enc_def)
    qed
    then show ?thesis by (simp add: fit_transform_def)
  qed
  with True show ?thesis by simp
next
  case False
  then obtain y ys' where ys: "ys = y # ys'" by (cases ys) auto
  with False assms have y: "y = ''Y''" by auto
  from False have "classes ys = [''Y'']"
    using classes_all_Y [OF assms] by simp
  then have "hd (map (\<lambda>n. PyInt (int n)) (fit_transform ys) :: 'f pyval list) = PyInt 0"
    by (simp add: fit_transform_def ys y)
  moreover have "hd (map accessible_enc (map PyStr ys) :: 'f pyval list) = PyInt 1"
    by (simp add: ys y accessible_enc_def)
  ultimately have "map accessible_enc (map PyStr ys) \<noteq>
      (map (\<lambda>n. PyInt (int n)) (fit_transform ys) :: 'f pyval list)"
    by auto
  with False show ?thesis by simp
qed

theorem lambda_label_encoder_agree_witness:
  "set [''Y'', ''N'', ''N'', ''N'', ''N''] \<subseteq> {''N'', ''Y''} \<and>
   map accessible_enc (map PyStr [''Y'', ''N'', ''N'', ''N'', ''N'']) =
     (map (\<lambda>n. PyInt (int n)) (fit_transform [''Y'', ''N'', ''N'', ''N'', ''N'']) :: rat pyval list) \<and>
   fit_transform [''Y'', ''N'', ''N'', ''N'', ''N''] = [1, 0, 0, 0, 0]"
proof -
  have h: "set [''Y'', ''N'', ''N'', ''N'', ''N''] \<subseteq> {''N'', ''Y''}" by simp
  have c: "fit_transform [''Y'', ''N'', ''N'', ''N'', ''N''] = [1, 0, 0, 0, 0]"
    by (simp add: fit_transform_def classes_def)
  from lambda_label_encoder_agree [OF h, where 'f = rat] h c show ?thesis by simp
qed

section \<open>One-hot encoding\<close>

lemma set_dummy_names: "set (dummy_names xs) = {v. Some v \<in> set xs}"
proof -
  have "the ` {x \<in> set xs. x \<noteq> None} = {v. Some v \<in> set xs}"
    by (auto simp: image_iff) force
  then show ?thesis by (simp add: dummy_names_def)
qed

lemma distinct_dummy_names: "distinct (dummy_names xs)"
  by (simp add: dummy_names_def)

lemma filter_eq_distinct: "distinct cs \<Longrightarrow> v \<in> set cs \<Longrightarrow> filter (\<lambda>c. c = v) cs = [v]"
  by (induction cs) (auto simp: filter_empty_conv)

text \<open>A row whose entry is missing holds 0 in every column.\<close>

lemma get_dummies_missing_row:
  "i < length xs \<Longrightarrow> xs ! i = None \<Longrightarrow> \<forall>p \<in> set (get_dummies xs). snd p ! i = 0"
  by (auto simp: get_dummies_def)

text \<open>
  Claim C5: \<open>get_dummies\<close> yields one column for each distinct value that is not missing, each
  column as long as the series; in a row whose entry is the value \<open>v\<close>, the columns holding 1
  are the column named \<open>v\<close> and no other, and every other column holds 0. The witness is the
  colour example of the notebook, with the table that the notebook records.
\<close>

theorem get_dummies_one_hot:
  "distinct (map fst (get_dummies xs)) \<and>
   set (map fst (get_dummies xs)) = {v. Some v \<in> set xs} \<and>
   (\<forall>p \<in> set (get_dummies xs). length (snd p) = length xs) \<and>
   (\<forall>i < length xs. \<forall>v. xs ! i = Some v \<longrightarrow>
      map fst (filter (\<lambda>p. snd p ! i = 1) (get_dummies xs)) = [v] \<and>
      (\<forall>p \<in> set (get_dummies xs). snd p ! i = (if fst p = v then 1 else 0)))"
proof -
  have names: "map fst (get_dummies xs) = dummy_names xs"
    by (simp add: get_dummies_def comp_def)
  have row: "map fst (filter (\<lambda>p. snd p ! i = 1) (get_dummies xs)) = [v] \<and>
      (\<forall>p \<in> set (get_dummies xs). snd p ! i = (if fst p = v then 1 else 0))"
    if i: "i < length xs" and v: "xs ! i = Some v" for i v
  proof -
    have "Some v \<in> set xs" using i v by (metis nth_mem)
    then have mem: "v \<in> set (dummy_names xs)" by (simp add: set_dummy_names)
    have "map fst (filter (\<lambda>p. snd p ! i = 1) (get_dummies xs))
        = filter (\<lambda>c. c = v) (dummy_names xs)"
      using i v by (simp add: get_dummies_def filter_map comp_def eq_commute [of v])
    also have "\<dots> = [v]"
      using filter_eq_distinct [OF distinct_dummy_names mem] .
    finally show ?thesis
      using i v by (auto simp: get_dummies_def)
  qed
  show ?thesis
    using row by (simp add: names distinct_dummy_names set_dummy_names) (simp add: get_dummies_def)
qed

theorem get_dummies_one_hot_witness:
  "get_dummies [Some ''blue'', Some ''red'', Some ''green'', Some ''red'']
     = [(''blue'', [1, 0, 0, 0]), (''green'', [0, 0, 1, 0]), (''red'', [0, 1, 0, 1])] \<and>
   map fst (filter (\<lambda>p. snd p ! 2 = 1)
     (get_dummies [Some ''blue'', Some ''red'', Some ''green'', Some ''red''])) = [''green'']"
proof -
  let ?xs = "[Some ''blue'', Some ''red'', Some ''green'', Some ''red'']"
  have g: "get_dummies ?xs
     = [(''blue'', [1, 0, 0, 0]), (''green'', [0, 0, 1, 0]), (''red'', [0, 1, 0, 1])]"
    by (simp add: get_dummies_def dummy_names_def)
  have "(2::nat) < length ?xs" "?xs ! 2 = Some ''green''" by simp_all
  with get_dummies_one_hot [of ?xs]
  have "map fst (filter (\<lambda>p. snd p ! 2 = 1) (get_dummies ?xs)) = [''green'']"
    by blast
  with g show ?thesis by simp
qed

end
